theory Spec2Isabelle
  imports Main "HOL-Library.AList" "HOL-Library.Sublist"
begin

section \<open>The form builder\<close>

text \<open>
  The class \<open>FormBuilder\<close> of
  \<^verbatim>\<open>src/modules/@angular/common/src/forms-deprecated/form_builder.ts\<close>; the line
  numbers below are those of this file.

  The builder turns a loosely typed configuration into model objects. JavaScript
  objects are references, and several properties of the builder are about identity
  (a pre-built control is returned as the same object) and about what is mutated, so
  the embedding has an explicit object store: a value of type \<open>any\<close> is a
  \<open>jsval\<close>, an object is a cell of the store, and every operation takes the store
  and returns it with the objects it allocated.
\<close>

subsection \<open>Values and the object store\<close>

type_synonym addr = nat

text \<open>
  A value of type \<open>any\<close>: the two absent values of JavaScript, the primitives, and a
  reference to an object. Numbers are never inspected by the builder; they are kept
  as integers.
\<close>

datatype jsval = Undefined | Null | Bool bool | Num int | Str string | Ref addr

text \<open>
  Modelled from the spec: the classes \<open>Control\<close>, \<open>ControlGroup\<close> and
  \<open>ControlArray\<close> of \<open>./model\<close> are imported by the builder and are not among the
  sources. Section 3 and 6 of the spec give their constructors:
  \<open>Control(value, validator, asyncValidator)\<close>,
  \<open>ControlGroup(controlsMap, optionals, validator, asyncValidator)\<close> and
  \<open>ControlArray(controlsList, validator, asyncValidator)\<close>, each holding what it is
  given. The other objects a configuration can refer to are arrays, plain objects
  (string maps) and functions (validators), the latter opaque and known by a name.
\<close>

datatype obj =
    Array "jsval list"
  | StringMap "(string \<times> jsval) list"
  | Function string
  | Control jsval jsval jsval
  | ControlGroup "(string \<times> jsval) list" jsval jsval jsval
  | ControlArray "jsval list" jsval jsval

text \<open>The store: the object at address \<open>a\<close> is the \<open>a\<close>-th cell; allocation appends.\<close>

type_synonym heap = "obj list"

definition heap_get :: "heap \<Rightarrow> addr \<Rightarrow> obj option" where
  "heap_get h a = (if a < length h then Some (h ! a) else None)"

fun deref :: "heap \<Rightarrow> jsval \<Rightarrow> obj option" where
  "deref h (Ref a) = heap_get h a"
| "deref h Undefined = None"
| "deref h Null = None"
| "deref h (Bool b) = None"
| "deref h (Num n) = None"
| "deref h (Str s) = None"

definition alloc :: "heap \<Rightarrow> obj \<Rightarrow> jsval \<times> heap" where
  "alloc h ob = (Ref (length h), h @ [ob])"

text \<open>
  Modelled from the spec: \<open>new Control(value, validator, asyncValidator)\<close>, the
  constructor of \<open>./model\<close>. Spec, section 4.1: construction always succeeds and has no
  side effect beyond the new object.
\<close>

definition new_Control :: "heap \<Rightarrow> jsval \<Rightarrow> jsval \<Rightarrow> jsval \<Rightarrow> jsval \<times> heap" where
  "new_Control h value validator asyncValidator =
     alloc h (Control value validator asyncValidator)"

text \<open>
  Modelled from the spec: \<open>new ControlGroup(controls, optionals, validator,
  asyncValidator)\<close>, the constructor of \<open>./model\<close>; spec, sections 4.1 and 6. The map
  \<open>controls\<close> was built by the caller and is referenced by nothing else: the object
  holds it.
\<close>

definition new_ControlGroup ::
  "heap \<Rightarrow> (string \<times> jsval) list \<Rightarrow> jsval \<Rightarrow> jsval \<Rightarrow> jsval \<Rightarrow> jsval \<times> heap" where
  "new_ControlGroup h controls optionals validator asyncValidator =
     alloc h (ControlGroup controls optionals validator asyncValidator)"

text \<open>
  Modelled from the spec: \<open>new ControlArray(controls, validator, asyncValidator)\<close>, the
  constructor of \<open>./model\<close>; spec, sections 4.1 and 6. The object holds the list it is
  given.
\<close>

definition new_ControlArray :: "heap \<Rightarrow> jsval list \<Rightarrow> jsval \<Rightarrow> jsval \<Rightarrow> jsval \<times> heap" where
  "new_ControlArray h controls validator asyncValidator =
     alloc h (ControlArray controls validator asyncValidator)"

subsection \<open>The run-time checks and reads the builder makes\<close>

text \<open>\<open>x instanceof C\<close>: false for a primitive, and for an object decided by its class.\<close>

definition instanceof_Control :: "heap \<Rightarrow> jsval \<Rightarrow> bool" where
  "instanceof_Control h v = (case deref h v of Some (Control _ _ _) \<Rightarrow> True | _ \<Rightarrow> False)"

definition instanceof_ControlGroup :: "heap \<Rightarrow> jsval \<Rightarrow> bool" where
  "instanceof_ControlGroup h v =
     (case deref h v of Some (ControlGroup _ _ _ _) \<Rightarrow> True | _ \<Rightarrow> False)"

definition instanceof_ControlArray :: "heap \<Rightarrow> jsval \<Rightarrow> bool" where
  "instanceof_ControlArray h v =
     (case deref h v of Some (ControlArray _ _ _) \<Rightarrow> True | _ \<Rightarrow> False)"

text \<open>
  Modelled from the spec: \<open>isArray\<close> of \<open>../facade/lang\<close> is imported and not among
  the sources; spec, section 4.1: the node "is an ordered sequence (array-shaped)".
\<close>

definition isArray :: "heap \<Rightarrow> jsval \<Rightarrow> bool" where
  "isArray h v = (case deref h v of Some (Array _) \<Rightarrow> True | _ \<Rightarrow> False)"

text \<open>
  \<open>controlConfig.length\<close> and \<open>controlConfig[i]\<close>, read once \<open>isArray\<close> has held.
  JavaScript does not fault on an index past the end: the read gives \<open>undefined\<close>.
\<close>

definition array_length :: "heap \<Rightarrow> jsval \<Rightarrow> nat" where
  "array_length h v = (case deref h v of Some (Array xs) \<Rightarrow> length xs | _ \<Rightarrow> 0)"

definition array_index :: "heap \<Rightarrow> jsval \<Rightarrow> nat \<Rightarrow> jsval" where
  "array_index h v i =
     (case deref h v of
        Some (Array xs) \<Rightarrow> (if i < length xs then xs ! i else Undefined)
      | _ \<Rightarrow> Undefined)"

text \<open>
  A parameter declared \<open>p = null\<close>: an argument that is omitted, or \<open>undefined\<close>, is
  replaced by the default.
\<close>

definition default_param :: "jsval \<Rightarrow> jsval \<Rightarrow> jsval" where
  "default_param arg d = (if arg = Undefined then d else arg)"

text \<open>
  Modelled from the spec: \<open>StringMapWrapper.get\<close> of \<open>../facade/collection\<close> is
  imported and not among the sources. It reads a key of a string map; spec, section
  4.1: a missing key is none. As with every JavaScript property read, the value of a
  missing key is \<open>undefined\<close>.
\<close>

definition StringMapWrapper_get :: "(string \<times> jsval) list \<Rightarrow> string \<Rightarrow> jsval" where
  "StringMapWrapper_get m key = (case map_of m key of Some v \<Rightarrow> v | None \<Rightarrow> Undefined)"

text \<open>
  Modelled from the spec: "none" (also written "none/null") of a validator or an
  option. It is what \<open>../facade/lang\<close> calls blank, the values \<open>isPresent\<close> rejects:
  \<open>null\<close> and \<open>undefined\<close>.
\<close>

definition isBlank :: "jsval \<Rightarrow> bool" where
  "isBlank v = (v = Undefined \<or> v = Null)"

subsection \<open>The builder\<close>

text \<open>
  \<open>control(value, validator = null, asyncValidator = null)\<close>, lines 82 to 85. A call
  with fewer arguments passes \<open>Undefined\<close> for the missing ones.
\<close>

definition control :: "heap \<Rightarrow> jsval \<Rightarrow> jsval \<Rightarrow> jsval \<Rightarrow> jsval \<times> heap" where
  "control h value validator asyncValidator =
     new_Control h value (default_param validator Null) (default_param asyncValidator Null)"

text \<open>\<open>_createControl(controlConfig)\<close>, lines 108 to 122.\<close>

definition createControl :: "heap \<Rightarrow> jsval \<Rightarrow> jsval \<times> heap" where
  "createControl h controlConfig =
     (if instanceof_Control h controlConfig \<or> instanceof_ControlGroup h controlConfig \<or>
         instanceof_ControlArray h controlConfig
      then (controlConfig, h)
      else if isArray h controlConfig then
        (let value = array_index h controlConfig 0;
             validator =
               (if array_length h controlConfig > 1 then array_index h controlConfig 1 else Null);
             asyncValidator =
               (if array_length h controlConfig > 2 then array_index h controlConfig 2 else Null)
         in control h value validator asyncValidator)
      else control h controlConfig Undefined Undefined)"

text \<open>
  \<open>controlsConfig.map(c => this._createControl(c))\<close>, line 94: the elements are
  resolved from left to right, each in the store its predecessors left.
\<close>

fun map_createControl :: "heap \<Rightarrow> jsval list \<Rightarrow> jsval list \<times> heap" where
  "map_createControl h [] = ([], h)"
| "map_createControl h (c # cs) =
     (case createControl h c of (r, h1) \<Rightarrow>
        (case map_createControl h1 cs of (rs, h2) \<Rightarrow> (r # rs, h2)))"

text \<open>
  \<open>array(controlsConfig, validator = null, asyncValidator = null)\<close>, lines 91 to 96.
  The parameter is typed \<open>any[]\<close>: a list of values. The array that \<open>map\<close> builds is
  handed to the ControlArray and referenced by nothing else; the object holds it.
\<close>

definition array :: "heap \<Rightarrow> jsval list \<Rightarrow> jsval \<Rightarrow> jsval \<Rightarrow> jsval \<times> heap" where
  "array h controlsConfig validator asyncValidator =
     (case map_createControl h controlsConfig of (controls, h1) \<Rightarrow>
        new_ControlArray h1 controls
          (default_param validator Null) (default_param asyncValidator Null))"

text \<open>
  The assignment \<open>controls[controlName] = c\<close> of line 102, on the object \<open>controls\<close>
  that line 100 creates as the plain \<open>{}\<close>; the list holds its own entries. A plain
  object inherits the accessor \<open>__proto__\<close> of \<open>Object.prototype\<close>. An assignment to
  that key runs the inherited setter: it makes the value the prototype of \<open>controls\<close>
  when the value is an object, as every result of \<open>_createControl\<close> is, and does
  nothing otherwise. Either way \<open>controls\<close> gets no entry. An assignment to any other
  key replaces the entry of a key that is already there and adds one otherwise. The
  prototype of \<open>controls\<close> is not kept: the builder never reads it, and the spec
  (section 3) gives a control only data, a value and validators, so that the
  assignments after it add their entries as on a plain object.
\<close>

definition proto_key :: string where
  "proto_key = ''__proto__''"

definition set_property ::
  "(string \<times> jsval) list \<Rightarrow> string \<Rightarrow> jsval \<Rightarrow> (string \<times> jsval) list" where
  "set_property controls controlName c =
     (if controlName = proto_key then controls else AList.update controlName c controls)"

text \<open>
  Modelled from the spec: \<open>StringMapWrapper.forEach\<close> of \<open>../facade/collection\<close> is
  imported and not among the sources; spec, section 4.1: it "iterates every key of the
  input mapping". Here it visits the own entries of the string map one after the
  other. The body of the loop is the source's, lines 101 to 103: each visit assigns
  \<open>controls[controlName] = this._createControl(controlConfig)\<close>.
\<close>

fun forEach_createControl ::
  "(string \<times> jsval) list \<Rightarrow> (string \<times> jsval) list \<Rightarrow> heap \<Rightarrow> (string \<times> jsval) list \<times> heap"
where
  "forEach_createControl [] controls h = (controls, h)"
| "forEach_createControl ((controlName, controlConfig) # rest) controls h =
     (case createControl h controlConfig of (c, h1) \<Rightarrow>
        forEach_createControl rest (set_property controls controlName c) h1)"

text \<open>\<open>_reduceControls(controlsConfig)\<close>, lines 99 to 105: \<open>controls\<close> starts as \<open>{}\<close>.\<close>

definition reduceControls ::
  "heap \<Rightarrow> (string \<times> jsval) list \<Rightarrow> (string \<times> jsval) list \<times> heap" where
  "reduceControls h controlsConfig = forEach_createControl controlsConfig [] h"

text \<open>
  \<open>group(controlsConfig, extra = null)\<close>, lines 70 to 78. Both parameters are typed
  as string maps; \<open>extra\<close> may be omitted or \<open>null\<close>, which is \<open>None\<close> here, and
  \<open>isPresent(extra)\<close> is the test that it is not.
\<close>

definition group ::
  "heap \<Rightarrow> (string \<times> jsval) list \<Rightarrow> (string \<times> jsval) list option \<Rightarrow> jsval \<times> heap" where
  "group h controlsConfig extra =
     (case reduceControls h controlsConfig of (controls, h1) \<Rightarrow>
        (let optionals =
               (case extra of Some e \<Rightarrow> StringMapWrapper_get e ''optionals'' | None \<Rightarrow> Null);
             validator =
               (case extra of Some e \<Rightarrow> StringMapWrapper_get e ''validator'' | None \<Rightarrow> Null);
             asyncValidator =
               (case extra of Some e \<Rightarrow> StringMapWrapper_get e ''asyncValidator'' | None \<Rightarrow> Null)
         in new_ControlGroup h1 controls optionals validator asyncValidator))"

subsection \<open>The builder over constructors that can fault\<close>















subsection \<open>Notions used to state the properties\<close>

text \<open>A value is valid in a store when it is not a reference past the store's end.\<close>

definition valid :: "heap \<Rightarrow> jsval \<Rightarrow> bool" where
  "valid h v = (case v of Ref a \<Rightarrow> a < length h | _ \<Rightarrow> True)"

text \<open>The first test of \<open>_createControl\<close>, lines 109 and 110.\<close>

definition is_instance :: "heap \<Rightarrow> jsval \<Rightarrow> bool" where
  "is_instance h v =
     (instanceof_Control h v \<or> instanceof_ControlGroup h v \<or> instanceof_ControlArray h v)"

text \<open>
  \<open>same_control h c h' r\<close>: the reference \<open>r\<close>, read in the store \<open>h'\<close>, is what
  \<open>_createControl(c)\<close> gives for the configuration node \<open>c\<close> of the store \<open>h\<close>. For a
  pre-built control it is \<open>c\<close> itself. Otherwise it is a reference to an object
  allocated after \<open>h\<close>. In both cases the object it refers to is, field by field, the
  object that \<open>_createControl(c)\<close> returns when it is called in \<open>h\<close>.
\<close>

definition same_control :: "heap \<Rightarrow> jsval \<Rightarrow> heap \<Rightarrow> jsval \<Rightarrow> bool" where
  "same_control h c h' r =
     ((if is_instance h c then r = c
       else (case r of Ref a \<Rightarrow> length h \<le> a | _ \<Rightarrow> False))
      \<and> deref h' r = deref (snd (createControl h c)) (fst (createControl h c)))"

text \<open>
  A store is well formed when no object in it holds a reference past the store's end,
  as in every store a JavaScript program can reach.
\<close>

fun obj_values :: "obj \<Rightarrow> jsval list" where
  "obj_values (Array xs) = xs"
| "obj_values (StringMap m) = map snd m"
| "obj_values (Function f) = []"
| "obj_values (Control v val aval) = [v, val, aval]"
| "obj_values (ControlGroup cs opt val aval) = map snd cs @ [opt, val, aval]"
| "obj_values (ControlArray cs val aval) = cs @ [val, aval]"

definition wf_heap :: "heap \<Rightarrow> bool" where
  "wf_heap h = list_all (\<lambda>ob. list_all (valid h) (obj_values ob)) h"

text \<open>
  Two calls with the same arguments allocate at different addresses when the store
  has grown in between. \<open>shift_val n d\<close> moves a reference to an address from \<open>n\<close> on
  by \<open>d\<close> cells and leaves every other value alone; \<open>shift_obj\<close> does so in every field
  of an object. \<open>relocate h hx res\<close> is the result \<open>res\<close> of a call made in the store
  \<open>h\<close>, moved to the larger store \<open>hx\<close>: the objects the call allocated are appended to
  \<open>hx\<close>, and the references to them are shifted by the difference of the sizes.
\<close>

fun shift_val :: "nat \<Rightarrow> nat \<Rightarrow> jsval \<Rightarrow> jsval" where
  "shift_val n d (Ref a) = (if n \<le> a then Ref (a + d) else Ref a)"
| "shift_val n d Undefined = Undefined"
| "shift_val n d Null = Null"
| "shift_val n d (Bool b) = Bool b"
| "shift_val n d (Num i) = Num i"
| "shift_val n d (Str s) = Str s"

definition shift_entries ::
  "nat \<Rightarrow> nat \<Rightarrow> (string \<times> jsval) list \<Rightarrow> (string \<times> jsval) list" where
  "shift_entries n d m = map (\<lambda>(k, v). (k, shift_val n d v)) m"

fun shift_obj :: "nat \<Rightarrow> nat \<Rightarrow> obj \<Rightarrow> obj" where
  "shift_obj n d (Array xs) = Array (map (shift_val n d) xs)"
| "shift_obj n d (StringMap m) = StringMap (shift_entries n d m)"
| "shift_obj n d (Function f) = Function f"
| "shift_obj n d (Control v val aval) =
     Control (shift_val n d v) (shift_val n d val) (shift_val n d aval)"
| "shift_obj n d (ControlGroup cs opt val aval) =
     ControlGroup (shift_entries n d cs)
       (shift_val n d opt) (shift_val n d val) (shift_val n d aval)"
| "shift_obj n d (ControlArray cs val aval) =
     ControlArray (map (shift_val n d) cs) (shift_val n d val) (shift_val n d aval)"

definition relocate :: "heap \<Rightarrow> heap \<Rightarrow> jsval \<times> heap \<Rightarrow> jsval \<times> heap" where
  "relocate h hx res =
     (shift_val (length h) (length hx - length h) (fst res),
      hx @ map (shift_obj (length h) (length hx - length h)) (drop (length h) (snd res)))"

subsection \<open>Examples\<close>

text \<open>
  A store with the validator \<open>required\<close>, the configuration node \<open>["a", required]\<close>
  and a pre-built control.
\<close>

definition login_store :: heap where
  "login_store = [Function ''required'', Array [Str ''a'', Ref 0], Control (Str ''p'') Null Null]"

text \<open>The same store after an earlier call \<open>control(1)\<close>.\<close>

definition login_store_later :: heap where
  "login_store_later = login_store @ [Control (Num 1) Null Null]"

text \<open>
  The spec's nesting example, \<open>group({x: ["a"], y: group({z: ["b"]})})\<close>: the store
  with the two arrays \<open>["a"]\<close> and \<open>["b"]\<close>, and the store the inner call leaves.
\<close>

definition nesting_store :: heap where
  "nesting_store = [Array [Str ''a''], Array [Str ''b'']]"

definition nesting_store_inner :: heap where
  "nesting_store_inner =
     nesting_store @ [Control (Str ''b'') Null Null, ControlGroup [(''z'', Ref 2)] Null Null Null]"


section \<open>Basic facts\<close>

lemmas builder_defs = createControl_def instanceof_Control_def instanceof_ControlGroup_def
  instanceof_ControlArray_def isArray_def array_length_def array_index_def heap_get_def
  control_def new_Control_def alloc_def default_param_def set_property_def proto_key_def Let_def

lemma control_eq:
  "control h v val aval =
     (Ref (length h), h @ [Control v (default_param val Null) (default_param aval Null)])"
  by (simp add: control_def new_Control_def alloc_def)

lemma deref_Array_simps:
  assumes "deref h c = Some (Array xs)"
  shows "\<not> instanceof_Control h c" "\<not> instanceof_ControlGroup h c" "\<not> instanceof_ControlArray h c"
    "isArray h c" "array_length h c = length xs"
    "array_index h c i = (if i < length xs then xs ! i else Undefined)"
  using assms
  by (simp_all add: instanceof_Control_def instanceof_ControlGroup_def
      instanceof_ControlArray_def isArray_def array_length_def array_index_def)

lemma prefix_nth: "prefix h hx \<Longrightarrow> a < length h \<Longrightarrow> hx ! a = h ! a"
  by (auto simp add: prefix_def nth_append)

lemma deref_prefix: "prefix h hx \<Longrightarrow> valid h v \<Longrightarrow> deref hx v = deref h v"
  by (cases v) (auto simp add: valid_def heap_get_def prefix_nth dest: prefix_length_le)

lemma checks_prefix:
  assumes "prefix h hx" and "valid h v"
  shows "instanceof_Control hx v = instanceof_Control h v"
    and "instanceof_ControlGroup hx v = instanceof_ControlGroup h v"
    and "instanceof_ControlArray hx v = instanceof_ControlArray h v"
    and "isArray hx v = isArray h v"
    and "array_length hx v = array_length h v"
    and "array_index hx v i = array_index h v i"
  using deref_prefix [OF assms]
  by (simp_all add: instanceof_Control_def instanceof_ControlGroup_def
      instanceof_ControlArray_def isArray_def array_length_def array_index_def)

lemma is_instance_prefix: "prefix h hx \<Longrightarrow> valid h v \<Longrightarrow> is_instance hx v = is_instance h v"
  by (simp add: is_instance_def checks_prefix)

lemma createControl_instance: "is_instance h c \<Longrightarrow> createControl h c = (c, h)"
  by (simp add: createControl_def is_instance_def)

lemma createControl_fresh:
  "\<not> is_instance h c \<Longrightarrow>
     createControl h c = (Ref (length h), h @ [last (snd (createControl h c))])"
  by (simp add: createControl_def is_instance_def control_eq Let_def)

lemma createControl_prefix: "prefix h (snd (createControl h c))"
  by (cases "is_instance h c") (simp_all add: createControl_instance createControl_def is_instance_def control_eq Let_def)

lemma last_createControl_prefix:
  assumes "prefix h hx" and "valid h c" and "\<not> is_instance h c"
  shows "last (snd (createControl hx c)) = last (snd (createControl h c))"
  using assms is_instance_prefix [OF assms(1,2)]
  by (simp add: createControl_def is_instance_def checks_prefix control_eq Let_def)

lemma createControl_same_control:
  assumes "prefix h hx" and "valid h c" and "createControl hx c = (r, h1)"
  shows "same_control h c h1 r \<and> valid h1 r \<and> prefix hx h1"
proof (cases "is_instance h c")
  case True
  then have "is_instance hx c" using assms by (simp add: is_instance_prefix)
  then have "r = c" "h1 = hx" using assms(3) by (simp_all add: createControl_instance)
  then show ?thesis using True assms
    by (auto simp add: same_control_def createControl_instance deref_prefix valid_def
        split: jsval.splits dest: prefix_length_le)
next
  case False
  then have nx: "\<not> is_instance hx c" using assms by (simp add: is_instance_prefix)
  have "createControl hx c = (Ref (length hx), hx @ [last (snd (createControl h c))])"
    using createControl_fresh [OF nx] last_createControl_prefix [OF assms(1,2) False] by simp
  then have r: "r = Ref (length hx)" and h1: "h1 = hx @ [last (snd (createControl h c))]"
    using assms(3) by simp_all
  have "createControl h c = (Ref (length h), h @ [last (snd (createControl h c))])"
    using createControl_fresh [OF False] .
  then have "deref (snd (createControl h c)) (fst (createControl h c)) = Some (last (snd (createControl h c)))"
    by (metis deref.simps(1) fst_conv heap_get_def length_append_singleton lessI nth_append_length snd_conv)
  then show ?thesis using False r h1 assms(1)
    by (auto simp add: same_control_def heap_get_def valid_def dest: prefix_length_le)
qed

lemma same_control_mono:
  "same_control h c h1 r \<Longrightarrow> valid h1 r \<Longrightarrow> prefix h1 h2 \<Longrightarrow> same_control h c h2 r"
  by (simp add: same_control_def deref_prefix)

lemma valid_mono: "valid h v \<Longrightarrow> prefix h hx \<Longrightarrow> valid hx v"
  by (cases v) (auto simp add: valid_def dest: prefix_length_le)

lemma map_createControl_same_control:
  assumes "prefix h hx" and "\<forall>c \<in> set cs. valid h c" and "map_createControl hx cs = (rs, h1)"
  shows "prefix hx h1 \<and> length rs = length cs
       \<and> (\<forall>i < length cs. same_control h (cs ! i) h1 (rs ! i) \<and> valid h1 (rs ! i))"
  using assms
proof (induction cs arbitrary: hx rs h1)
  case Nil
  then show ?case by simp
next
  case (Cons c cs)
  obtain r hx1 where cc: "createControl hx c = (r, hx1)" by (cases "createControl hx c")
  obtain rs' h2 where mm: "map_createControl hx1 cs = (rs', h2)" by (cases "map_createControl hx1 cs")
  from Cons.prems(3) cc mm have rs: "rs = r # rs'" and h1: "h1 = h2" by simp_all
  from createControl_same_control [OF Cons.prems(1) _ cc] Cons.prems(2)
  have sc: "same_control h c hx1 r" and vr: "valid hx1 r" and px: "prefix hx hx1" by simp_all
  have ph: "prefix h hx1" using Cons.prems(1) px by (rule prefix_order.trans)
  from Cons.IH [OF ph _ mm] Cons.prems(2)
  have p2: "prefix hx1 h2" and len: "length rs' = length cs"
    and all: "\<forall>i < length cs. same_control h (cs ! i) h2 (rs' ! i) \<and> valid h2 (rs' ! i)"
    by simp_all
  have "same_control h c h2 r" "valid h2 r"
    using sc vr p2 by (simp_all add: same_control_mono valid_mono)
  then show ?case using rs h1 len all px p2
    by (auto simp add: nth_Cons split: nat.splits intro: prefix_order.trans)
qed

lemma forEach_same_control:
  assumes "prefix h hx" and "list_all (valid h) (map snd m)" and "distinct (map fst m)"
    and "forEach_createControl m acc hx = (controls, h1)"
  shows "prefix hx h1
       \<and> (\<forall>k. k \<notin> fst ` set m \<or> k = proto_key \<longrightarrow> map_of controls k = map_of acc k)
       \<and> (\<forall>k c. (k, c) \<in> set m \<and> k \<noteq> proto_key \<longrightarrow>
             (\<exists>r. map_of controls k = Some r \<and> same_control h c h1 r \<and> valid h1 r))"
  using assms
proof (induction m arbitrary: acc hx)
  case Nil
  then show ?case by simp
next
  case (Cons kc rest)
  obtain k c where kc: "kc = (k, c)" by (cases kc)
  obtain r hx1 where cc: "createControl hx c = (r, hx1)" by (cases "createControl hx c")
  from Cons.prems(4) kc cc
  have fe: "forEach_createControl rest (set_property acc k r) hx1 = (controls, h1)" by simp
  from Cons.prems(2) kc have vc: "valid h c" and vrest: "list_all (valid h) (map snd rest)"
    by simp_all
  from Cons.prems(3) kc have knot: "k \<notin> fst ` set rest" and drest: "distinct (map fst rest)"
    by simp_all
  from createControl_same_control [OF Cons.prems(1) vc cc]
  have sc: "same_control h c hx1 r" and vr: "valid hx1 r" and px: "prefix hx hx1" by simp_all
  have ph: "prefix h hx1" using Cons.prems(1) px by (rule prefix_order.trans)
  from Cons.IH [OF ph vrest drest fe]
  have p2: "prefix hx1 h1"
    and keep: "\<forall>k'. k' \<notin> fst ` set rest \<or> k' = proto_key \<longrightarrow>
             map_of controls k' = map_of (set_property acc k r) k'"
    and all: "\<forall>k' c'. (k', c') \<in> set rest \<and> k' \<noteq> proto_key \<longrightarrow>
             (\<exists>r. map_of controls k' = Some r \<and> same_control h c' h1 r \<and> valid h1 r)"
    by simp_all
  have here: "map_of controls k = Some r" if "k \<noteq> proto_key"
    using keep knot that by (simp add: set_property_def update_conv')
  have "same_control h c h1 r" "valid h1 r"
    using sc vr p2 by (simp_all add: same_control_mono valid_mono)
  with here all keep px p2 kc show ?case
    by (auto simp add: set_property_def update_conv' intro: prefix_order.trans)
qed

lemma forEach_keys:
  "forEach_createControl m acc hx = (controls, h1) \<Longrightarrow>
     fst ` set controls = fst ` set acc \<union> (fst ` set m - {proto_key})"
proof (induction m arbitrary: acc hx)
  case Nil
  then show ?case by simp
next
  case (Cons kc rest)
  obtain k c where kc: "kc = (k, c)" by (cases kc)
  obtain r hx1 where cc: "createControl hx c = (r, hx1)" by (cases "createControl hx c")
  from Cons.prems kc cc
  have "forEach_createControl rest (set_property acc k r) hx1 = (controls, h1)" by simp
  from Cons.IH [OF this]
  have keys: "fst ` set controls =
      fst ` set (set_property acc k r) \<union> (fst ` set rest - {proto_key})" .
  show ?case
  proof (cases "k = proto_key")
    case True
    then have "fst ` set (set_property acc k r) = fst ` set acc"
      by (simp add: set_property_def)
    with keys kc True show ?thesis by auto
  next
    case False
    then have "fst ` set (set_property acc k r) = {k} \<union> fst ` set acc"
      by (simp add: set_property_def dom_update)
    with keys kc False show ?thesis by auto
  qed
qed

lemma group_eq:
  "group h m extra =
     (Ref (length (snd (reduceControls h m))),
      snd (reduceControls h m) @
      [ControlGroup (fst (reduceControls h m))
         (case extra of Some e \<Rightarrow> StringMapWrapper_get e ''optionals'' | None \<Rightarrow> Null)
         (case extra of Some e \<Rightarrow> StringMapWrapper_get e ''validator'' | None \<Rightarrow> Null)
         (case extra of Some e \<Rightarrow> StringMapWrapper_get e ''asyncValidator'' | None \<Rightarrow> Null)])"
  by (simp add: group_def new_ControlGroup_def alloc_def Let_def split: prod.splits)

lemma array_eq:
  "array h cs val aval =
     (Ref (length (snd (map_createControl h cs))),
      snd (map_createControl h cs) @
      [ControlArray (fst (map_createControl h cs)) (default_param val Null) (default_param aval Null)])"
  by (simp add: array_def new_ControlArray_def alloc_def split: prod.splits)

lemma shift_val_valid: "valid h v \<Longrightarrow> shift_val (length h) d v = v"
  by (cases v) (simp_all add: valid_def)

lemma valid_array_index: "wf_heap h \<Longrightarrow> valid h (array_index h c i)"
proof (cases c)
  case (Ref a)
  assume wf: "wf_heap h"
  show ?thesis
  proof (cases "a < length h")
    case True
    then have "h ! a \<in> set h" by simp
    with wf have "list_all (valid h) (obj_values (h ! a))"
      by (simp add: wf_heap_def list_all_iff)
    then show ?thesis using Ref True
      by (auto simp add: array_index_def heap_get_def list_all_iff valid_def split: obj.splits)
  next
    case False
    then show ?thesis using Ref by (simp add: array_index_def heap_get_def valid_def)
  qed
qed (simp_all add: array_index_def valid_def)

lemma valid_default_param: "valid h v \<Longrightarrow> valid h (default_param v Null)"
  by (simp add: default_param_def valid_def)

lemma shift_created:
  assumes "wf_heap h" and "valid h c" and "\<not> is_instance h c"
  shows "shift_obj (length h) d (last (snd (createControl h c))) = last (snd (createControl h c))"
  using assms valid_array_index [OF assms(1)]
  by (simp add: createControl_def is_instance_def control_eq Let_def shift_val_valid
      valid_default_param default_param_def)

lemma createControl_relocate:
  assumes "wf_heap h" and "prefix h hx" and "valid h c" and "prefix h h1"
  shows "createControl (hx @ map (shift_obj (length h) (length hx - length h)) (drop (length h) h1)) c
       = (shift_val (length h) (length hx - length h) (fst (createControl h1 c)),
          hx @ map (shift_obj (length h) (length hx - length h))
                 (drop (length h) (snd (createControl h1 c))))"
proof -
  let ?sh = "shift_obj (length h) (length hx - length h)"
  let ?hx1 = "hx @ map ?sh (drop (length h) h1)"
  have px: "prefix h ?hx1" using assms(2) by (simp add: prefix_prefix)
  have n1: "length h \<le> length h1" and nx: "length h \<le> length hx"
    using assms(2,4) by (simp_all add: prefix_length_le)
  show ?thesis
  proof (cases "is_instance h c")
    case True
    then have "is_instance h1 c" "is_instance ?hx1 c"
      using assms(3,4) px by (simp_all add: is_instance_prefix)
    then show ?thesis using assms(3) by (simp add: createControl_instance shift_val_valid)
  next
    case False
    let ?ob = "last (snd (createControl h c))"
    have n1': "\<not> is_instance h1 c" and nx': "\<not> is_instance ?hx1 c"
      using False assms(3,4) px by (simp_all add: is_instance_prefix)
    have c1: "createControl h1 c = (Ref (length h1), h1 @ [?ob])"
      using createControl_fresh [OF n1'] last_createControl_prefix [OF assms(4,3) False] by simp
    have cx: "createControl ?hx1 c = (Ref (length ?hx1), ?hx1 @ [?ob])"
      using createControl_fresh [OF nx'] last_createControl_prefix [OF px assms(3) False] by simp
    have "?sh ?ob = ?ob" using shift_created [OF assms(1,3) False] .
    then show ?thesis using c1 cx n1 nx by simp
  qed
qed

lemma map_createControl_prefix: "prefix h (snd (map_createControl h cs))"
proof (induction cs arbitrary: h)
  case Nil
  then show ?case by simp
next
  case (Cons c cs)
  have "prefix h (snd (createControl h c))" by (rule createControl_prefix)
  moreover have "prefix (snd (createControl h c)) (snd (map_createControl (snd (createControl h c)) cs))"
    by (rule Cons.IH)
  ultimately show ?case
    by (auto split: prod.splits intro: prefix_order.trans)
qed

lemma forEach_prefix: "prefix h (snd (forEach_createControl m acc h))"
proof (induction m arbitrary: acc h)
  case Nil
  then show ?case by simp
next
  case (Cons kc rest)
  obtain k c where kc: "kc = (k, c)" by (cases kc)
  have "prefix h (snd (createControl h c))" by (rule createControl_prefix)
  moreover have "prefix (snd (createControl h c))
      (snd (forEach_createControl rest (set_property acc k (fst (createControl h c)))
         (snd (createControl h c))))"
    by (rule Cons.IH)
  ultimately show ?case using kc
    by (auto split: prod.splits intro: prefix_order.trans)
qed

lemma map_createControl_relocate:
  assumes "wf_heap h" and "prefix h hx" and "list_all (valid h) cs" and "prefix h h1"
  shows "map_createControl (hx @ map (shift_obj (length h) (length hx - length h)) (drop (length h) h1)) cs
       = (map (shift_val (length h) (length hx - length h)) (fst (map_createControl h1 cs)),
          hx @ map (shift_obj (length h) (length hx - length h))
                 (drop (length h) (snd (map_createControl h1 cs))))"
  using assms(3,4)
proof (induction cs arbitrary: h1)
  case Nil
  then show ?case by simp
next
  case (Cons c cs)
  from Cons.prems have vc: "valid h c" and vcs: "list_all (valid h) cs" by simp_all
  have p2: "prefix h (snd (createControl h1 c))"
    using Cons.prems(2) createControl_prefix by (rule prefix_order.trans)
  show ?case
    using createControl_relocate [OF assms(1,2) vc Cons.prems(2)] Cons.IH [OF vcs p2]
    by (simp add: split_beta)
qed

lemma shift_entries_update:
  "shift_entries n d (AList.update k v al) = AList.update k (shift_val n d v) (shift_entries n d al)"
  by (induction al) (auto simp add: shift_entries_def)

lemma shift_entries_set_property:
  "shift_entries n d (set_property al k v) = set_property (shift_entries n d al) k (shift_val n d v)"
  by (simp add: set_property_def shift_entries_update)

lemma forEach_relocate:
  assumes "wf_heap h" and "prefix h hx" and "list_all (valid h) (map snd m)" and "prefix h h1"
  shows "forEach_createControl m (shift_entries (length h) (length hx - length h) acc)
           (hx @ map (shift_obj (length h) (length hx - length h)) (drop (length h) h1))
       = (shift_entries (length h) (length hx - length h) (fst (forEach_createControl m acc h1)),
          hx @ map (shift_obj (length h) (length hx - length h))
                 (drop (length h) (snd (forEach_createControl m acc h1))))"
  using assms(3,4)
proof (induction m arbitrary: acc h1)
  case Nil
  then show ?case by simp
next
  case (Cons kc rest)
  obtain k c where kc: "kc = (k, c)" by (cases kc)
  from Cons.prems kc have vc: "valid h c" and vrest: "list_all (valid h) (map snd rest)"
    by simp_all
  have p2: "prefix h (snd (createControl h1 c))"
    using Cons.prems(2) createControl_prefix by (rule prefix_order.trans)
  show ?case
    using createControl_relocate [OF assms(1,2) vc Cons.prems(2)]
      Cons.IH [OF vrest p2, of "set_property acc k (fst (createControl h1 c))"] kc
    by (simp add: split_beta shift_entries_set_property)
qed

lemma control_relocate:
  assumes "prefix h hx" and "valid h v" and "valid h val" and "valid h aval"
  shows "control hx v val aval = relocate h hx (control h v val aval)"
  using assms
  by (simp add: relocate_def control_eq shift_val_valid valid_default_param prefix_length_le)

lemma array_relocate:
  assumes "wf_heap h" and "prefix h hx" and "list_all (valid h) cs"
    and "valid h val" and "valid h aval"
  shows "array hx cs val aval = relocate h hx (array h cs val aval)"
proof -
  have n: "length h \<le> length (snd (map_createControl h cs))" "length h \<le> length hx"
    using map_createControl_prefix [of h cs] assms(2) by (simp_all add: prefix_length_le)
  show ?thesis
    using map_createControl_relocate [OF assms(1,2,3) prefix_order.refl] n assms(4,5)
    by (simp add: relocate_def array_eq shift_val_valid valid_default_param)
qed

lemma valid_get: "list_all (valid h) (map snd e) \<Longrightarrow> valid h (StringMapWrapper_get e k)"
  by (auto simp add: StringMapWrapper_get_def list_all_iff valid_def split: option.splits dest!: map_of_SomeD)

lemma group_relocate:
  assumes "wf_heap h" and "prefix h hx" and "list_all (valid h) (map snd m)"
    and "case extra of Some e \<Rightarrow> list_all (valid h) (map snd e) | None \<Rightarrow> True"
  shows "group hx m extra = relocate h hx (group h m extra)"
proof -
  have n: "length h \<le> length (snd (forEach_createControl m [] h))" "length h \<le> length hx"
    using forEach_prefix [of h m "[]"] assms(2) by (simp_all add: prefix_length_le)
  have e: "shift_entries (length h) (length hx - length h) [] = []"
    by (simp add: shift_entries_def)
  have g: "shift_val (length h) (length hx - length h)
             (case extra of Some e \<Rightarrow> StringMapWrapper_get e k | None \<Rightarrow> Null)
           = (case extra of Some e \<Rightarrow> StringMapWrapper_get e k | None \<Rightarrow> Null)" for k
    using assms(4) by (cases extra) (simp_all add: shift_val_valid valid_get)
  show ?thesis
    using forEach_relocate [OF assms(1,2,3) prefix_order.refl, of "[]"] n e
    by (simp add: relocate_def group_eq reduceControls_def g)
qed

lemma map_createControl_length:
  "map_createControl h cs = (rs, h1) \<Longrightarrow> length rs = length cs"
  by (induction cs arbitrary: h rs h1) (auto split: prod.splits)

lemma map_createControl_step:
  assumes "map_createControl h cs = (rs, h1)" and "i < length cs"
  shows "createControl (snd (map_createControl h (take i cs))) (cs ! i)
       = (rs ! i, snd (map_createControl h (take (Suc i) cs)))"
  using assms
proof (induction cs arbitrary: h rs h1 i)
  case Nil
  then show ?case by simp
next
  case (Cons c cs)
  obtain r hx1 where cc: "createControl h c = (r, hx1)" by (cases "createControl h c")
  obtain rs' h2 where mm: "map_createControl hx1 cs = (rs', h2)"
    by (cases "map_createControl hx1 cs")
  from Cons.prems(1) cc mm have rs: "rs = r # rs'" by simp
  show ?case
  proof (cases i)
    case 0
    then show ?thesis using cc rs by simp
  next
    case (Suc j)
    then have "j < length cs" using Cons.prems(2) by simp
    from Cons.IH [OF mm this] show ?thesis using Suc cc rs by (simp add: split_beta)
  qed
qed

subsection \<open>Faults\<close>












section \<open>Properties of \<open>control\<close>\<close>

text \<open>
  C5. For every value \<open>v\<close>, \<open>control(v)\<close> returns: the result is a reference to a new
  object (its address was free before the call), a Control whose stored value is \<open>v\<close>
  and whose two validators are \<open>null\<close>. A validator that is supplied (an argument
  other than \<open>undefined\<close>) is stored as it is.
\<close>

theorem control_wraps_value_and_validators:
  "control h v Undefined Undefined = (Ref (length h), h @ [Control v Null Null])
   \<and> heap_get h (length h) = None
   \<and> deref (snd (control h v Undefined Undefined)) (fst (control h v Undefined Undefined))
       = Some (Control v Null Null)
   \<and> (val \<noteq> Undefined \<longrightarrow>
        control h v val Undefined = (Ref (length h), h @ [Control v val Null]))
   \<and> (aval \<noteq> Undefined \<longrightarrow>
        control h v Undefined aval = (Ref (length h), h @ [Control v Null aval]))
   \<and> (val \<noteq> Undefined \<longrightarrow> aval \<noteq> Undefined \<longrightarrow>
        control h v val aval = (Ref (length h), h @ [Control v val aval]))"
  by (simp add: control_def new_Control_def alloc_def default_param_def heap_get_def)

theorem control_wraps_value_and_validators_witness:
  "control [Function ''required''] (Str ''a'') Undefined Undefined
     = (Ref 1, [Function ''required'', Control (Str ''a'') Null Null])
   \<and> control [Function ''required''] (Str ''a'') (Ref 0) Undefined
     = (Ref 1, [Function ''required'', Control (Str ''a'') (Ref 0) Null])
   \<and> control [Function ''required''] (Str ''a'') Undefined (Ref 0)
     = (Ref 1, [Function ''required'', Control (Str ''a'') Null (Ref 0)])
   \<and> control [Function ''required''] (Str ''a'') (Ref 0) (Ref 0)
     = (Ref 1, [Function ''required'', Control (Str ''a'') (Ref 0) (Ref 0)])"
  using control_wraps_value_and_validators
    [of "[Function ''required'']" "Str ''a''" "Ref 0" "Ref 0"]
  by simp

section \<open>Properties of \<open>_createControl\<close>\<close>

text \<open>
  C3. Pass-through. A configuration node that is already an instance of Control,
  ControlGroup or ControlArray is returned as it is: the result is the very reference
  that was passed, and the store is the one before the call, so nothing was allocated
  and no object was changed. The node is not wrapped in a new Control, which is what
  the raw-value branch would have done. The instance test is the first of the
  function, so no assumption is made on whether the node is array-shaped.
\<close>

theorem createControl_passthrough:
  assumes "instanceof_Control h c \<or> instanceof_ControlGroup h c \<or> instanceof_ControlArray h c"
  shows "createControl h c = (c, h) \<and> createControl h c \<noteq> control h c Undefined Undefined"
  using assms by (auto simp add: createControl_def control_eq)

theorem createControl_passthrough_witness:
  "instanceof_ControlGroup [Control (Str ''b'') Null Null, ControlGroup [(''z'', Ref 0)] Null Null Null] (Ref 1)
   \<and> createControl [Control (Str ''b'') Null Null, ControlGroup [(''z'', Ref 0)] Null Null Null] (Ref 1)
       = (Ref 1, [Control (Str ''b'') Null Null, ControlGroup [(''z'', Ref 0)] Null Null Null])"
  using createControl_passthrough
    [of "[Control (Str ''b'') Null Null, ControlGroup [(''z'', Ref 0)] Null Null Null]" "Ref 1"]
  by (simp add: instanceof_ControlGroup_def heap_get_def)

text \<open>
  C1. An array-shaped node is read by position. Element 0 is the initial value,
  element 1 is the validator when the array has more than one element, element 2 is
  the async validator when it has more than two, and a validator that is missing is
  \<open>null\<close>; the result is \<open>control\<close> applied to the three. So \<open>[v, val]\<close> gives
  \<open>control(v, val)\<close> with async validator \<open>null\<close>, and \<open>[v]\<close> gives \<open>control(v)\<close>,
  a new Control with value \<open>v\<close> and both validators \<open>null\<close>.
\<close>

theorem createControl_array_positional:
  assumes "deref h c = Some (Array xs)"
  shows "createControl h c =
           control h (if 0 < length xs then xs ! 0 else Undefined)
                     (if 1 < length xs then xs ! 1 else Null)
                     (if 2 < length xs then xs ! 2 else Null)
       \<and> (\<forall>v val. xs = [v, val] \<longrightarrow>
             createControl h c = control h v val Null
           \<and> createControl h c = control h v val Undefined)
       \<and> (\<forall>v. xs = [v] \<longrightarrow>
             createControl h c = control h v Undefined Undefined
           \<and> createControl h c = (Ref (length h), h @ [Control v Null Null]))"
  using assms
  by (auto simp add: createControl_def deref_Array_simps control_eq default_param_def Let_def)

theorem createControl_array_positional_witness:
  "deref [Function ''required'', Array [Str ''a'', Ref 0]] (Ref 1) = Some (Array [Str ''a'', Ref 0])
   \<and> createControl [Function ''required'', Array [Str ''a'', Ref 0]] (Ref 1)
       = control [Function ''required'', Array [Str ''a'', Ref 0]] (Str ''a'') (Ref 0) Null
   \<and> createControl [Function ''required'', Array [Str ''a'', Ref 0]] (Ref 1)
       = (Ref 2, [Function ''required'', Array [Str ''a'', Ref 0], Control (Str ''a'') (Ref 0) Null])"
  using createControl_array_positional
    [of "[Function ''required'', Array [Str ''a'', Ref 0]]" "Ref 1" "[Str ''a'', Ref 0]"]
  by (simp add: heap_get_def control_def new_Control_def alloc_def default_param_def)

text \<open>
  C10. An array-shaped node with more than three elements: the elements from index 3
  on are ignored. The result is \<open>control(node[0], node[1], node[2])\<close>, and it is the
  result for any node \<open>c'\<close> that holds just the first three elements.
\<close>

theorem createControl_ignores_tail:
  assumes "deref h c = Some (Array xs)" and "3 < length xs"
    and "deref h c' = Some (Array (take 3 xs))"
  shows "createControl h c = control h (xs ! 0) (xs ! 1) (xs ! 2)
       \<and> createControl h c = createControl h c'"
  using assms
  by (auto simp add: createControl_def deref_Array_simps Let_def)

theorem createControl_ignores_tail_witness:
  "deref [Array [Str ''a'', Null, Null, Str ''extra''], Array [Str ''a'', Null, Null]] (Ref 0)
     = Some (Array [Str ''a'', Null, Null, Str ''extra''])
   \<and> 3 < length [Str ''a'', Null, Null, Str ''extra'']
   \<and> deref [Array [Str ''a'', Null, Null, Str ''extra''], Array [Str ''a'', Null, Null]] (Ref 1)
     = Some (Array (take 3 [Str ''a'', Null, Null, Str ''extra'']))
   \<and> createControl [Array [Str ''a'', Null, Null, Str ''extra''], Array [Str ''a'', Null, Null]] (Ref 0)
     = createControl [Array [Str ''a'', Null, Null, Str ''extra''], Array [Str ''a'', Null, Null]] (Ref 1)
   \<and> createControl [Array [Str ''a'', Null, Null, Str ''extra''], Array [Str ''a'', Null, Null]] (Ref 0)
     = (Ref 2, [Array [Str ''a'', Null, Null, Str ''extra''], Array [Str ''a'', Null, Null],
                Control (Str ''a'') Null Null])"
  using createControl_ignores_tail
    [of "[Array [Str ''a'', Null, Null, Str ''extra''], Array [Str ''a'', Null, Null]]" "Ref 0"
        "[Str ''a'', Null, Null, Str ''extra'']" "Ref 1"]
  by (simp add: builder_defs)

text \<open>
  C7. The three-way dispatch. A node that is neither an instance of one of the three
  model classes nor array-shaped is itself the initial value: the result is
  \<open>control(node)\<close>, a new Control holding the node, with both validators \<open>null\<close>. This
  branch is the last one: an instance is passed through whatever else it is, and an
  array-shaped node that is not an instance is read by position.
\<close>

theorem createControl_raw_value:
  "(\<not> instanceof_Control h c \<and> \<not> instanceof_ControlGroup h c \<and> \<not> instanceof_ControlArray h c \<and> \<not> isArray h c
      \<longrightarrow> createControl h c = control h c Undefined Undefined
        \<and> createControl h c = (Ref (length h), h @ [Control c Null Null]))
  \<and> (instanceof_Control h c \<or> instanceof_ControlGroup h c \<or> instanceof_ControlArray h c
      \<longrightarrow> createControl h c = (c, h))
  \<and> (\<not> instanceof_Control h c \<and> \<not> instanceof_ControlGroup h c \<and> \<not> instanceof_ControlArray h c \<and> isArray h c
      \<longrightarrow> createControl h c =
            control h (array_index h c 0)
              (if 1 < array_length h c then array_index h c 1 else Null)
              (if 2 < array_length h c then array_index h c 2 else Null))"
  by (simp add: createControl_def control_eq default_param_def Let_def)

theorem createControl_raw_value_witness:
  "createControl [Array [Str ''a'']] (Str ''a'')
     = control [Array [Str ''a'']] (Str ''a'') Undefined Undefined
   \<and> createControl [Array [Str ''a'']] (Str ''a'')
     = (Ref 1, [Array [Str ''a''], Control (Str ''a'') Null Null])
   \<and> createControl [Array [Str ''a'']] (Ref 0)
     = control [Array [Str ''a'']] (Str ''a'') Null Null
   \<and> createControl [Array [Str ''a''], Control (Str ''a'') Null Null] (Ref 1)
     = (Ref 1, [Array [Str ''a''], Control (Str ''a'') Null Null])"
  using createControl_raw_value [of "[Array [Str ''a'']]" "Str ''a''"]
    createControl_raw_value [of "[Array [Str ''a'']]" "Ref 0"]
    createControl_raw_value [of "[Array [Str ''a''], Control (Str ''a'') Null Null]" "Ref 1"]
  by (simp add: builder_defs)

section \<open>Properties of \<open>array\<close> and \<open>group\<close>\<close>

text \<open>
  C4. \<open>array(a, validator, asyncValidator)\<close> returns a reference to a new ControlArray
  that holds the two validators (\<open>null\<close> for one that is omitted) and as many
  controls as \<open>a\<close> has elements. Control \<open>i\<close> is the result of \<open>_createControl\<close> on
  element \<open>i\<close>, called in the store that the elements before \<open>i\<close> left. When the
  elements of \<open>a\<close> are valid in the store of the call, control \<open>i\<close> is also, read in
  the final store, what \<open>_createControl\<close> gives for element \<open>i\<close> in the store of the
  call: element \<open>i\<close> itself when it is a pre-built control, and otherwise a new
  object equal to the one \<open>_createControl\<close> builds.
\<close>

theorem array_elements_in_order:
  "\<exists>controls.
      deref (snd (array h cs val aval)) (fst (array h cs val aval))
        = Some (ControlArray controls (default_param val Null) (default_param aval Null))
    \<and> length controls = length cs
    \<and> (\<forall>i < length cs.
          createControl (snd (map_createControl h (take i cs))) (cs ! i)
            = (controls ! i, snd (map_createControl h (take (Suc i) cs))))
    \<and> (list_all (valid h) cs \<longrightarrow>
        (\<forall>i < length cs. same_control h (cs ! i) (snd (array h cs val aval)) (controls ! i)))"
proof -
  obtain controls h1 where mc: "map_createControl h cs = (controls, h1)"
    by (cases "map_createControl h cs")
  have a: "array h cs val aval =
      (Ref (length h1), h1 @ [ControlArray controls (default_param val Null) (default_param aval Null)])"
    using mc by (simp add: array_eq)
  have len: "length controls = length cs"
    using mc by (rule map_createControl_length)
  have each: "same_control h (cs ! i) (snd (array h cs val aval)) (controls ! i)"
    if "list_all (valid h) cs" and "i < length cs" for i
  proof -
    from that(1) have "\<forall>c \<in> set cs. valid h c" by (simp add: list_all_iff)
    from map_createControl_same_control [OF prefix_order.refl this mc] that(2)
    have "same_control h (cs ! i) h1 (controls ! i)" "valid h1 (controls ! i)" by simp_all
    then show ?thesis using a by (auto intro: same_control_mono)
  qed
  have d: "deref (snd (array h cs val aval)) (fst (array h cs val aval))
        = Some (ControlArray controls (default_param val Null) (default_param aval Null))"
    by (simp add: a heap_get_def)
  show ?thesis using d len each map_createControl_step [OF mc] by blast
qed

theorem array_elements_in_order_witness:
  "list_all (valid login_store) [Ref 1, Ref 2, Num 5]
   \<and> array login_store [Ref 1, Ref 2, Num 5] (Ref 0) Undefined
     = (Ref 5, login_store @
          [Control (Str ''a'') (Ref 0) Null, Control (Num 5) Null Null,
           ControlArray [Ref 3, Ref 2, Ref 4] (Ref 0) Null])
   \<and> same_control login_store (Ref 1)
        (snd (array login_store [Ref 1, Ref 2, Num 5] (Ref 0) Undefined)) (Ref 3)
   \<and> same_control login_store (Ref 2)
        (snd (array login_store [Ref 1, Ref 2, Num 5] (Ref 0) Undefined)) (Ref 2)
   \<and> same_control login_store (Num 5)
        (snd (array login_store [Ref 1, Ref 2, Num 5] (Ref 0) Undefined)) (Ref 4)"
proof -
  let ?cs = "[Ref 1, Ref 2, Num 5]"
  have a: "array login_store ?cs (Ref 0) Undefined
     = (Ref 5, login_store @
          [Control (Str ''a'') (Ref 0) Null, Control (Num 5) Null Null,
           ControlArray [Ref 3, Ref 2, Ref 4] (Ref 0) Null])"
    by (simp add: login_store_def builder_defs array_def new_ControlArray_def)
  have v: "list_all (valid login_store) ?cs"
    by (simp add: login_store_def valid_def)
  have len: "length login_store = 3"
    by (simp add: login_store_def)
  from array_elements_in_order [of login_store ?cs "Ref 0" Undefined] v a
  have each: "same_control login_store (?cs ! i)
      (snd (array login_store ?cs (Ref 0) Undefined)) ([Ref 3, Ref 2, Ref 4] ! i)"
    if "i < 3" for i
    using that by (simp add: heap_get_def default_param_def nth_append len)
  have "same_control login_store (Ref 1) (snd (array login_store ?cs (Ref 0) Undefined)) (Ref 3)"
    "same_control login_store (Ref 2) (snd (array login_store ?cs (Ref 0) Undefined)) (Ref 2)"
    "same_control login_store (Num 5) (snd (array login_store ?cs (Ref 0) Undefined)) (Ref 4)"
    using each [of 0] each [of 1] each [of 2] by simp_all
  then show ?thesis using v a by simp
qed

text \<open>
  C2. The claim gives the group the key set of \<open>m\<close> for every mapping \<open>m\<close>. The code
  does not when \<open>m\<close> has the own key \<open>__proto__\<close>, as
  \<open>JSON.parse('{"x": ["a"], "__proto__": ["a"]}')\<close> has: the loop builds a control for
  that key as for any other, and the assignment to \<open>controls\<close> then sets the prototype
  of the plain object instead of adding a field. The group has the field \<open>x\<close> alone.
\<close>

theorem group_drops_proto_key:
  "group [Array [Str ''a'']] [(''x'', Ref 0), (''__proto__'', Ref 0)] None
     = (Ref 3, [Array [Str ''a''], Control (Str ''a'') Null Null, Control (Str ''a'') Null Null,
                ControlGroup [(''x'', Ref 1)] Null Null Null])"
  by (simp add: builder_defs group_def reduceControls_def new_ControlGroup_def)

text \<open>
  For every key other than \<open>__proto__\<close> the group is as described. \<open>group(m)\<close>, with or
  without \<open>extra\<close>, returns a reference to a new ControlGroup whose keys are the keys
  of \<open>m\<close> other than \<open>__proto__\<close>. When \<open>m\<close> has each key once, as a JavaScript object
  does, and its values are valid in the store of the call, the control under each
  such key \<open>k\<close> is what \<open>_createControl\<close> gives for \<open>m[k]\<close>: \<open>m[k]\<close> itself when it is a
  pre-built control, and otherwise a new object equal to the one \<open>_createControl\<close>
  builds.
\<close>

theorem group_controls_match_config:
  "\<exists>controls opt val aval.
      deref (snd (group h m extra)) (fst (group h m extra))
        = Some (ControlGroup controls opt val aval)
    \<and> fst ` set controls = fst ` set m - {proto_key}
    \<and> (distinct (map fst m) \<and> list_all (valid h) (map snd m) \<longrightarrow>
        (\<forall>k c. map_of m k = Some c \<and> k \<noteq> proto_key \<longrightarrow>
           (\<exists>r. map_of controls k = Some r \<and> same_control h c (snd (group h m extra)) r)))"
proof -
  obtain controls h1 where rc: "reduceControls h m = (controls, h1)"
    by (cases "reduceControls h m")
  then have fe: "forEach_createControl m [] h = (controls, h1)"
    by (simp add: reduceControls_def)
  let ?g = "ControlGroup controls
         (case extra of Some e \<Rightarrow> StringMapWrapper_get e ''optionals'' | None \<Rightarrow> Null)
         (case extra of Some e \<Rightarrow> StringMapWrapper_get e ''validator'' | None \<Rightarrow> Null)
         (case extra of Some e \<Rightarrow> StringMapWrapper_get e ''asyncValidator'' | None \<Rightarrow> Null)"
  have g: "group h m extra = (Ref (length h1), h1 @ [?g])"
    using rc by (simp add: group_eq)
  have d: "deref (snd (group h m extra)) (fst (group h m extra)) = Some ?g"
    by (simp add: g heap_get_def)
  have keys: "fst ` set controls = fst ` set m - {proto_key}"
    using forEach_keys [OF fe] by simp
  have each: "\<exists>r. map_of controls k = Some r \<and> same_control h c (snd (group h m extra)) r"
    if "distinct (map fst m)" and "list_all (valid h) (map snd m)" and "map_of m k = Some c"
      and "k \<noteq> proto_key"
    for k c
  proof -
    have kc: "(k, c) \<in> set m" using that(3) by (rule map_of_SomeD)
    with forEach_same_control [OF prefix_order.refl that(2) that(1) fe] that(4)
    obtain r where "map_of controls k = Some r" "same_control h c h1 r" "valid h1 r"
      by blast
    then show ?thesis using g by (auto intro: same_control_mono)
  qed
  show ?thesis using d keys each by blast
qed

theorem group_controls_match_config_witness:
  "group nesting_store [(''z'', Ref 1)] None = (Ref 3, nesting_store_inner)
   \<and> distinct (map fst [(''x'', Ref 0), (''y'', Ref 3)])
   \<and> list_all (valid nesting_store_inner) (map snd [(''x'', Ref 0), (''y'', Ref 3)])
   \<and> group nesting_store_inner [(''x'', Ref 0), (''y'', Ref 3)] None
     = (Ref 5, nesting_store_inner @
          [Control (Str ''a'') Null Null, ControlGroup [(''x'', Ref 4), (''y'', Ref 3)] Null Null Null])
   \<and> same_control nesting_store_inner (Ref 0)
        (snd (group nesting_store_inner [(''x'', Ref 0), (''y'', Ref 3)] None)) (Ref 4)
   \<and> same_control nesting_store_inner (Ref 3)
        (snd (group nesting_store_inner [(''x'', Ref 0), (''y'', Ref 3)] None)) (Ref 3)"
proof -
  let ?m = "[(''x'', Ref 0), (''y'', Ref 3)]"
  have inner: "group nesting_store [(''z'', Ref 1)] None = (Ref 3, nesting_store_inner)"
    by (simp add: nesting_store_inner_def nesting_store_def builder_defs group_def
        reduceControls_def new_ControlGroup_def)
  have g: "group nesting_store_inner ?m None
     = (Ref 5, nesting_store_inner @
          [Control (Str ''a'') Null Null, ControlGroup [(''x'', Ref 4), (''y'', Ref 3)] Null Null Null])"
    by (simp add: nesting_store_inner_def nesting_store_def builder_defs group_def
        reduceControls_def new_ControlGroup_def)
  have d: "distinct (map fst ?m)" by simp
  have v: "list_all (valid nesting_store_inner) (map snd ?m)"
    by (simp add: nesting_store_inner_def nesting_store_def valid_def)
  have len: "length nesting_store_inner = 4"
    by (simp add: nesting_store_inner_def nesting_store_def)
  from group_controls_match_config [of nesting_store_inner ?m None] d v g
  have each: "\<exists>r. map_of [(''x'', Ref 4), (''y'', Ref 3)] k = Some r
             \<and> same_control nesting_store_inner c (snd (group nesting_store_inner ?m None)) r"
    if "map_of ?m k = Some c" and "k \<noteq> proto_key" for k c
    using that by (simp add: heap_get_def nth_append len)
  have "same_control nesting_store_inner (Ref 0) (snd (group nesting_store_inner ?m None)) (Ref 4)"
    "same_control nesting_store_inner (Ref 3) (snd (group nesting_store_inner ?m None)) (Ref 3)"
    using each [of "''x''" "Ref 0"] each [of "''y''" "Ref 3"] by (simp_all add: proto_key_def)
  then show ?thesis using inner d v g by simp
qed

text \<open>
  C6. The options of \<open>group(m, extra)\<close>. Without \<open>extra\<close> the three options of the
  ControlGroup (optionals, validator, asyncValidator) are \<open>null\<close>. With \<open>extra\<close>, each
  option is the value of its key in \<open>extra\<close>, so \<open>group(m, {optionals: o})\<close> has
  optionals \<open>o\<close>, and the option of a key that \<open>extra\<close> does not have is none. The
  controls are the same in both cases.
\<close>

theorem group_extra_options:
  "\<exists>controls.
      deref (snd (group h m None)) (fst (group h m None))
        = Some (ControlGroup controls Null Null Null)
    \<and> (\<exists>opt val aval.
          deref (snd (group h m (Some e))) (fst (group h m (Some e)))
            = Some (ControlGroup controls opt val aval)
        \<and> (\<forall>x. map_of e ''optionals'' = Some x \<longrightarrow> opt = x)
        \<and> (\<forall>x. map_of e ''validator'' = Some x \<longrightarrow> val = x)
        \<and> (\<forall>x. map_of e ''asyncValidator'' = Some x \<longrightarrow> aval = x)
        \<and> (map_of e ''optionals'' = None \<longrightarrow> isBlank opt)
        \<and> (map_of e ''validator'' = None \<longrightarrow> isBlank val)
        \<and> (map_of e ''asyncValidator'' = None \<longrightarrow> isBlank aval))"
  by (simp add: group_eq heap_get_def StringMapWrapper_get_def isBlank_def)

theorem group_extra_options_witness:
  "group [Function ''required''] [(''login'', Str ''a'')] (Some [(''optionals'', Bool True), (''validator'', Ref 0)])
     = (Ref 2, [Function ''required'', Control (Str ''a'') Null Null,
                ControlGroup [(''login'', Ref 1)] (Bool True) (Ref 0) Undefined])
   \<and> group [Function ''required''] [(''login'', Str ''a'')] None
     = (Ref 2, [Function ''required'', Control (Str ''a'') Null Null,
                ControlGroup [(''login'', Ref 1)] Null Null Null])
   \<and> isBlank Undefined \<and> isBlank Null"
  using group_extra_options
    [of "[Function ''required'']" "[(''login'', Str ''a'')]" "[(''optionals'', Bool True), (''validator'', Ref 0)]"]
  by (simp add: builder_defs group_def reduceControls_def new_ControlGroup_def
      StringMapWrapper_get_def isBlank_def)

section \<open>Malformed configuration and faults\<close>




section \<open>The operations are pure\<close>

text \<open>
  C9. The three public operations are functions of their arguments and of the store,
  and the builder has no state of its own: no operation takes or returns anything
  else. Each of them leaves every object of the store in place and unchanged, the
  configuration nodes among them: the store after the call is the store before it,
  followed by the objects the call allocated. And the result does not depend on what
  earlier calls did: in a well-formed store \<open>h\<close>, with arguments that are valid in
  \<open>h\<close>, a call made after the store has grown to \<open>hx\<close> allocates the same objects and
  returns the same result as the call made in \<open>h\<close>, up to the addresses of the new
  objects, which are shifted by the growth. With \<open>hx = h\<close>, two calls with equal
  inputs have equal results.
\<close>

theorem operations_pure:
  "prefix h (snd (control h v val aval))
   \<and> prefix h (snd (array h cs val aval))
   \<and> prefix h (snd (group h m extra))
   \<and> (wf_heap h \<and> prefix h hx \<and> valid h v \<and> valid h val \<and> valid h aval
        \<and> list_all (valid h) cs \<and> list_all (valid h) (map snd m)
        \<and> (case extra of Some e \<Rightarrow> list_all (valid h) (map snd e) | None \<Rightarrow> True)
      \<longrightarrow> control hx v val aval = relocate h hx (control h v val aval)
        \<and> array hx cs val aval = relocate h hx (array h cs val aval)
        \<and> group hx m extra = relocate h hx (group h m extra))"
proof -
  have "prefix h (snd (control h v val aval))" by (simp add: control_eq)
  moreover have "prefix h (snd (array h cs val aval))"
    using map_createControl_prefix [of h cs] by (simp add: array_eq prefix_prefix)
  moreover have "prefix h (snd (group h m extra))"
    using forEach_prefix [of h m "[]"] by (simp add: group_eq reduceControls_def prefix_prefix)
  ultimately show ?thesis
    using control_relocate array_relocate group_relocate by blast
qed

theorem operations_pure_witness:
  "wf_heap login_store
   \<and> prefix login_store login_store_later
   \<and> array login_store [Ref 1, Ref 2, Num 5] (Ref 0) Undefined
     = (Ref 5, login_store @
          [Control (Str ''a'') (Ref 0) Null, Control (Num 5) Null Null,
           ControlArray [Ref 3, Ref 2, Ref 4] (Ref 0) Null])
   \<and> array login_store_later [Ref 1, Ref 2, Num 5] (Ref 0) Undefined
     = (Ref 6, login_store_later @
          [Control (Str ''a'') (Ref 0) Null, Control (Num 5) Null Null,
           ControlArray [Ref 4, Ref 2, Ref 5] (Ref 0) Null])
   \<and> array login_store_later [Ref 1, Ref 2, Num 5] (Ref 0) Undefined
     = relocate login_store login_store_later
         (array login_store [Ref 1, Ref 2, Num 5] (Ref 0) Undefined)
   \<and> group login_store_later [(''login'', Ref 1), (''pre'', Ref 2)] (Some [(''validator'', Ref 0)])
     = relocate login_store login_store_later
         (group login_store [(''login'', Ref 1), (''pre'', Ref 2)] (Some [(''validator'', Ref 0)]))
   \<and> control login_store_later (Str ''x'') (Ref 0) Undefined
     = relocate login_store login_store_later (control login_store (Str ''x'') (Ref 0) Undefined)"
proof -
  have wf: "wf_heap login_store" by (simp add: login_store_def wf_heap_def valid_def)
  have p: "prefix login_store login_store_later" by (simp add: login_store_later_def)
  have v: "valid login_store (Str ''x'')" "valid login_store (Ref 0)" "valid login_store Undefined"
    "list_all (valid login_store) [Ref 1, Ref 2, Num 5]"
    "list_all (valid login_store) (map snd [(''login'', Ref 1), (''pre'', Ref 2)])"
    "list_all (valid login_store) (map snd [(''validator'', Ref 0)])"
    by (simp_all add: login_store_def valid_def)
  have a: "array login_store [Ref 1, Ref 2, Num 5] (Ref 0) Undefined
     = (Ref 5, login_store @
          [Control (Str ''a'') (Ref 0) Null, Control (Num 5) Null Null,
           ControlArray [Ref 3, Ref 2, Ref 4] (Ref 0) Null])"
    by (simp add: login_store_def builder_defs array_def new_ControlArray_def)
  have ax: "array login_store_later [Ref 1, Ref 2, Num 5] (Ref 0) Undefined
     = (Ref 6, login_store_later @
          [Control (Str ''a'') (Ref 0) Null, Control (Num 5) Null Null,
           ControlArray [Ref 4, Ref 2, Ref 5] (Ref 0) Null])"
    by (simp add: login_store_later_def login_store_def builder_defs array_def
        new_ControlArray_def)
  from operations_pure [of login_store "Str ''x''" "Ref 0" Undefined "[Ref 1, Ref 2, Num 5]"
      "[(''login'', Ref 1), (''pre'', Ref 2)]" "Some [(''validator'', Ref 0)]" login_store_later]
    wf p v
  have "control login_store_later (Str ''x'') (Ref 0) Undefined
          = relocate login_store login_store_later (control login_store (Str ''x'') (Ref 0) Undefined)"
    "array login_store_later [Ref 1, Ref 2, Num 5] (Ref 0) Undefined
          = relocate login_store login_store_later
              (array login_store [Ref 1, Ref 2, Num 5] (Ref 0) Undefined)"
    "group login_store_later [(''login'', Ref 1), (''pre'', Ref 2)] (Some [(''validator'', Ref 0)])
          = relocate login_store login_store_later
              (group login_store [(''login'', Ref 1), (''pre'', Ref 2)] (Some [(''validator'', Ref 0)]))"
    by simp_all
  then show ?thesis using wf p a ax by simp
qed

end
